theory Spec2Isabelle
  imports Complex_Main
begin

section \<open>JavaScript numbers\<close>

text \<open>
  Scroll offsets, pointer coordinates and tween values are JavaScript numbers. They are
  modelled as reals: the rounding of IEEE doubles is not modelled. What is modelled is
  the one place where JavaScript arithmetic leaves the finite numbers, a division by
  zero, which does not raise but yields \<open>NaN\<close> or an infinity.
\<close>

datatype jsnum = Num real | NaN | PosInfinity | NegInfinity

definition js_div :: "real \<Rightarrow> real \<Rightarrow> jsnum" where
  "js_div a b =
     (if b \<noteq> 0 then Num (a / b)
      else if a = 0 then NaN
      else if 0 < a then PosInfinity else NegInfinity)"

section \<open>Scroll velocity smoothing\<close>

text \<open>
  The closure variables of \<open>scrollVelocityParallax\<close>:
  \<^verbatim>\<open>
  let lastScrollY = window.scrollY;
  let scrollVelocity = 0;
  let velocityHistory = [];
  \<close>
  The throttled variant of the function has, in addition, \<open>let ticking = false\<close>.
\<close>

record sampler =
  lastScrollY :: real
  scrollVelocity :: jsnum
  velocityHistory :: "real list"

record throttled_sampler = sampler +
  ticking :: bool

text \<open>
  The scroll listener of the unthrottled variant; \<open>currentScrollY\<close> is the value of
  \<open>window.scrollY\<close> it reads.
  \<^verbatim>\<open>
  const currentScrollY = window.scrollY;
  const instantVelocity = Math.abs(currentScrollY - lastScrollY);
  velocityHistory.push(instantVelocity);
  if (velocityHistory.length > 5) velocityHistory.shift();
  scrollVelocity = velocityHistory.reduce((a, b) => a + b, 0) / velocityHistory.length;
  lastScrollY = currentScrollY;
  \<close>
\<close>

definition onScroll :: "real \<Rightarrow> 'a sampler_scheme \<Rightarrow> 'a sampler_scheme" where
  "onScroll currentScrollY s =
     (let instantVelocity = \<bar>currentScrollY - lastScrollY s\<bar>;
          pushed = velocityHistory s @ [instantVelocity];
          history = (if length pushed > 5 then tl pushed else pushed)
      in s\<lparr>velocityHistory := history,
            scrollVelocity := js_div (foldl (\<lambda>a b. a + b) 0 history) (real (length history)),
            lastScrollY := currentScrollY\<rparr>)"

text \<open>
  \<open>updateVelocity\<close> of the throttled variant: the same statements, then
  \<open>ticking = false\<close>.
\<close>

definition updateVelocity :: "real \<Rightarrow> 'a throttled_sampler_scheme \<Rightarrow> 'a throttled_sampler_scheme" where
  "updateVelocity currentScrollY s =
     (let instantVelocity = \<bar>currentScrollY - lastScrollY s\<bar>;
          pushed = velocityHistory s @ [instantVelocity];
          history = (if length pushed > 5 then tl pushed else pushed)
      in s\<lparr>velocityHistory := history,
            scrollVelocity := js_div (foldl (\<lambda>a b. a + b) 0 history) (real (length history)),
            lastScrollY := currentScrollY,
            ticking := False\<rparr>)"

text \<open>The closure state at binding time, \<open>scrollY\<close> being \<open>window.scrollY\<close> then.\<close>

definition initial_sampler :: "real \<Rightarrow> sampler" where
  "initial_sampler scrollY =
     \<lparr>lastScrollY = scrollY, scrollVelocity = Num 0, velocityHistory = []\<rparr>"

definition initial_throttled :: "real \<Rightarrow> throttled_sampler" where
  "initial_throttled scrollY =
     \<lparr>lastScrollY = scrollY, scrollVelocity = Num 0, velocityHistory = [], ticking = False\<rparr>"

text \<open>Feeding a sequence of scroll positions, one sample each, oldest first.\<close>

definition feed :: "real list \<Rightarrow> 'a sampler_scheme \<Rightarrow> 'a sampler_scheme" where
  "feed ys s = foldl (\<lambda>s y. onScroll y s) s ys"

definition feed_throttled :: "real list \<Rightarrow> 'a throttled_sampler_scheme \<Rightarrow> 'a throttled_sampler_scheme" where
  "feed_throttled ys s = foldl (\<lambda>s y. updateVelocity y s) s ys"

text \<open>
  The vocabulary of the properties: the absolute deltas of a sequence of scroll
  positions that starts after the position \<open>y0\<close>, the \<open>n\<close> most recent entries of
  a list, and the arithmetic mean of a list (used on non-empty lists only).
\<close>

fun deltas :: "real \<Rightarrow> real list \<Rightarrow> real list" where
  "deltas y0 [] = []"
| "deltas y0 (y # ys) = \<bar>y - y0\<bar> # deltas y ys"

definition most_recent :: "nat \<Rightarrow> 'a list \<Rightarrow> 'a list" where
  "most_recent n xs = drop (length xs - n) xs"

definition mean :: "real list \<Rightarrow> real" where
  "mean xs = sum_list xs / real (length xs)"

section \<open>Throttling and frame coalescing\<close>

text \<open>
  The throttled variant does not sample in the scroll listener. The listener is
  \<open>throttle(handleScroll, 50)\<close>; \<open>handleScroll\<close> asks for an animation frame unless
  one is already asked for (\<open>ticking\<close>), and \<open>updateVelocity\<close> runs as that frame's
  callback. The state of the page that this involves, beside the sampler's:
  \<^item> \<open>windowScrollY\<close>: the current scroll offset, \<open>window.scrollY\<close>;
  \<^item> \<open>inThrottle\<close>: the closure variable of \<open>throttle\<close> (\<open>undefined\<close> at first,
    which is falsy);
  \<^item> \<open>timeouts\<close>: the times, in milliseconds, at which the pending \<open>setTimeout\<close>
    callbacks \<open>() => inThrottle = false\<close> fall due, oldest first;
  \<^item> \<open>frameCallbacks\<close>: how many \<open>updateVelocity\<close> callbacks
    \<open>requestAnimationFrame\<close> holds for the next frame;
  \<^item> \<open>clock\<close>: the time of the latest event;
  \<^item> \<open>frameRequests\<close> and \<open>samples\<close>: history counters, of the calls to
    \<open>requestAnimationFrame\<close> and of the runs of \<open>updateVelocity\<close> so far.
\<close>

record page = throttled_sampler +
  windowScrollY :: real
  inThrottle :: bool
  timeouts :: "nat list"
  frameCallbacks :: nat
  clock :: nat
  frameRequests :: nat
  samples :: nat

definition initial_page :: "real \<Rightarrow> page" where
  "initial_page scrollY =
     \<lparr>lastScrollY = scrollY, scrollVelocity = Num 0, velocityHistory = [], ticking = False,
      windowScrollY = scrollY, inThrottle = False, timeouts = [], frameCallbacks = 0,
      clock = 0, frameRequests = 0, samples = 0\<rparr>"

text \<open>
  \<^verbatim>\<open>
  const handleScroll = () => {
      if (!ticking) {
          window.requestAnimationFrame(updateVelocity);
          ticking = true;
      }
  };
  \<close>
\<close>

definition handleScroll :: "page \<Rightarrow> page" where
  "handleScroll s =
     (if \<not> ticking s then
        s\<lparr>frameCallbacks := frameCallbacks s + 1,
          frameRequests := frameRequests s + 1,
          ticking := True\<rparr>
      else s)"

text \<open>
  \<^verbatim>\<open>
  function throttle(func, limit) {
      let inThrottle;
      return function() {
          if (!inThrottle) {
              func.apply(context, args);
              inThrottle = true;
              setTimeout(() => inThrottle = false, limit);
          }
      };
  }
  \<close>
  The returned function, called at the time \<open>now\<close>.
\<close>

definition throttle :: "(page \<Rightarrow> page) \<Rightarrow> nat \<Rightarrow> nat \<Rightarrow> page \<Rightarrow> page" where
  "throttle func limit now s =
     (if \<not> inThrottle s then
        (let s' = func s in s'\<lparr>inThrottle := True, timeouts := timeouts s' @ [now + limit]\<rparr>)
      else s)"

text \<open>An animation frame runs the callbacks it holds; each reads \<open>window.scrollY\<close>.\<close>

definition animationFrame :: "page \<Rightarrow> page" where
  "animationFrame s =
     ((updateVelocity (windowScrollY s) ^^ frameCallbacks s) s)
       \<lparr>frameCallbacks := 0, samples := samples s + frameCallbacks s\<rparr>"

text \<open>
  The events of the page, each with its time: the user scrolls to an offset and the
  scroll listener runs; the oldest pending timeout fires; an animation frame runs. An
  event is refused (\<open>None\<close>) when it could not happen: time does not run backwards,
  and a timeout does not fire before it is due.
\<close>

datatype event = Scroll nat real | Timeout nat | Frame nat

fun is_scroll :: "event \<Rightarrow> bool" where
  "is_scroll (Scroll t y) = True"
| "is_scroll (Timeout t) = False"
| "is_scroll (Frame t) = False"

fun step :: "event \<Rightarrow> page \<Rightarrow> page option" where
  "step (Scroll t y) s =
     (if t < clock s then None
      else Some (throttle handleScroll 50 t (s\<lparr>windowScrollY := y, clock := t\<rparr>)))"
| "step (Timeout t) s =
     (if t < clock s then None
      else case timeouts s of
        [] \<Rightarrow> None
      | due # rest \<Rightarrow>
          if t < due then None
          else Some (s\<lparr>inThrottle := False, timeouts := rest, clock := t\<rparr>))"
| "step (Frame t) s =
     (if t < clock s then None else Some (animationFrame (s\<lparr>clock := t\<rparr>)))"

fun run :: "event list \<Rightarrow> page \<Rightarrow> page option" where
  "run [] s = Some s"
| "run (e # es) s = (case step e s of None \<Rightarrow> None | Some s' \<Rightarrow> run es s')"

text \<open>
  What every reachable state of the page satisfies: a frame callback is held exactly
  while \<open>ticking\<close> is set, and a timeout is pending exactly while the throttle window
  is open.
\<close>

definition consistent :: "page \<Rightarrow> bool" where
  "consistent s \<longleftrightarrow>
     frameCallbacks s = (if ticking s then 1 else 0)
     \<and> (if inThrottle s then length (timeouts s) = 1 else timeouts s = [])"

section \<open>The browser environment and the calls a script makes\<close>

text \<open>
  What the scripts read from the browser: the user-agent string, the result of the
  \<open>prefers-reduced-motion\<close> media query, whether the globals \<open>gsap\<close> and
  \<open>ScrollTrigger\<close> are defined, \<open>document.readyState\<close>, and for every selector the
  number of elements that \<open>querySelectorAll\<close> finds (\<open>querySelector\<close> finds the first
  of them, or \<open>null\<close> when there is none).
\<close>

record browser =
  userAgent :: string
  prefersReducedMotion :: bool
  gsapDefined :: bool
  scrollTriggerDefined :: bool
  readyState :: string
  matches :: "string \<Rightarrow> nat"

text \<open>
  What the scripts do to the page is a sequence of calls into the DOM and into the
  animation library, in program order. \<open>Element sel i\<close> is the \<open>i\<close>-th element
  matching \<open>sel\<close>. Of the configuration object of a tween only the numeric members
  are carried (with the \<open>scrub\<close> of its scroll trigger); eases, filters, trigger bounds
  and callbacks are left out.
\<close>

datatype target = Document | Window | DocumentElement | DocumentHead | Element string nat

type_synonym vars = "(string \<times> real) list"

record css_rule =
  selectors :: "string list"
  declarations :: "(string \<times> string \<times> bool) list"

datatype call =
    ConsoleLog string
  | ConsoleError string
  | ClassListAdd target string
  | AppendStyle "css_rule list"
  | SetStyle target string string
  | AddEventListener target string
  | GsapRegisterPlugin
  | NormalizeScroll
  | SaveStyles string
  | MatchMedia "string list"
  | ScrollTriggerConfig
  | GsapSet target vars
  | GsapTo target vars
  | GsapFrom target vars
  | GsapFromTo target vars vars
  | GsapTimeline

subsection \<open>Device classification\<close>

text \<open>
  \<^verbatim>\<open>/Android|webOS|iPhone|iPad|iPod|BlackBerry|IEMobile|Opera Mini/i.test(navigator.userAgent)\<close>
  A case-insensitive search for one of eight literal tokens. Without the \<open>u\<close> flag the
  regular expression folds case on ASCII letters only, for these ASCII patterns.
\<close>

definition lower :: "char \<Rightarrow> char" where
  "lower c = (let n = (of_char c :: nat) in if 65 \<le> n \<and> n \<le> 90 then char_of (n + 32) else c)"

fun starts_with :: "string \<Rightarrow> string \<Rightarrow> bool" where
  "starts_with [] cs = True"
| "starts_with (p # ps) [] = False"
| "starts_with (p # ps) (c # cs) = (lower p = lower c \<and> starts_with ps cs)"

fun contains_ci :: "string \<Rightarrow> string \<Rightarrow> bool" where
  "contains_ci pat [] = starts_with pat []"
| "contains_ci pat (c # cs) = (starts_with pat (c # cs) \<or> contains_ci pat cs)"

definition mobile_tokens :: "string list" where
  "mobile_tokens =
     [''Android'', ''webOS'', ''iPhone'', ''iPad'', ''iPod'', ''BlackBerry'', ''IEMobile'',
      ''Opera Mini'']"

definition isMobile :: "string \<Rightarrow> bool" where
  "isMobile ua = list_ex (\<lambda>tok. contains_ci tok ua) mobile_tokens"

subsection \<open>Exceptions\<close>

text \<open>
  A run of statements either returns or throws, after the calls it has made. The control
  flow of the scripts does not depend on what the library calls return, so the calls a
  run attempts are a list, and the environment's only choice is where an exception
  strikes: \<open>Some n\<close> when one is thrown after \<open>n\<close> calls have succeeded (by the
  next call or by any statement before it), \<open>None\<close> when none is thrown. A run that
  makes fewer than \<open>n\<close> calls ends before the exception would strike.
\<close>

datatype outcome = Returned "call list" | Threw "call list"

fun calls_of :: "outcome \<Rightarrow> call list" where
  "calls_of (Returned cs) = cs"
| "calls_of (Threw cs) = cs"

fun perform :: "nat option \<Rightarrow> call list \<Rightarrow> outcome" where
  "perform None cs = Returned cs"
| "perform (Some n) cs = (if n \<le> length cs then Threw (take n cs) else Returned cs)"

section \<open>The mobile override script\<close>

definition override_css :: "css_rule list" where
  "override_css =
     [\<lparr>selectors = [''*'', ''*:before'', ''*:after''],
       declarations =
         [(''transition'', ''none'', True),
          (''animation'', ''none'', True),
          (''transform'', ''none'', True),
          (''opacity'', ''1'', True),
          (''transform-style'', ''flat'', True),
          (''backface-visibility'', ''visible'', True),
          (''perspective'', ''none'', True)]\<rparr>,
      \<lparr>selectors = [''html'', ''body''],
       declarations =
         [(''-webkit-overflow-scrolling'', ''touch'', False),
          (''overflow'', ''auto'', False),
          (''height'', ''100%'', False),
          (''position'', ''relative'', False)]\<rparr>]"

definition disableAnimations :: "call list" where
  "disableAnimations = [AppendStyle override_css]"

definition optimizeScrolling :: "call list" where
  "optimizeScrolling =
     [SetStyle DocumentElement ''touchAction'' ''manipulation'',
      AddEventListener Document ''touchstart'']"

definition disableHoverEffects :: "call list" where
  "disableHoverEffects = [ClassListAdd DocumentElement ''no-hover'']"

text \<open>
  The touch-start listener of \<open>optimizeScrolling\<close>; its argument says whether
  \<open>e.target.closest('.scrollable')\<close> found an element.
\<close>

datatype event_effect = StopPropagation | PreventDefault

definition scrollable_touchstart :: "bool \<Rightarrow> event_effect list" where
  "scrollable_touchstart closest_scrollable =
     (if closest_scrollable then [StopPropagation] else [])"

text \<open>
  The script body, and the listener it registers for \<open>DOMContentLoaded\<close> when the
  document is still loading.
\<close>

definition mobile_optimize :: "browser \<Rightarrow> call list" where
  "mobile_optimize b =
     (if \<not> isMobile (userAgent b) then []
      else if readyState b = ''loading''
        then [AddEventListener Document ''DOMContentLoaded'']
        else disableAnimations @ optimizeScrolling @ disableHoverEffects)"

definition mobile_optimize_ready :: "call list" where
  "mobile_optimize_ready = disableAnimations @ optimizeScrolling @ disableHoverEffects"

text \<open>Everything the script has done once the document is ready.\<close>

definition mobile_optimize_page :: "browser \<Rightarrow> call list" where
  "mobile_optimize_page b =
     mobile_optimize b @
     (if AddEventListener Document ''DOMContentLoaded'' \<in> set (mobile_optimize b)
      then mobile_optimize_ready else [])"

section \<open>Pointer magnetism\<close>

text \<open>
  The three listeners that \<open>magneticHoverEffect\<close> gives every button. Each reads the
  button's bounding rectangle and the pointer position and starts one tween.
\<close>

record dom_rect =
  rect_left :: real
  rect_top :: real
  rect_width :: real
  rect_height :: real

record mouse_event =
  clientX :: real
  clientY :: real

record tween =
  tween_x :: real
  tween_y :: real
  duration :: real
  ease :: string

definition mouseenter :: "dom_rect \<Rightarrow> mouse_event \<Rightarrow> tween" where
  "mouseenter rect e =
     (let x = clientX e - rect_left rect - rect_width rect / 2;
          y = clientY e - rect_top rect - rect_height rect / 2
      in \<lparr>tween_x = x * 0.08, tween_y = y * 0.08, duration = 0.4, ease = ''power2.inOut''\<rparr>)"

definition mouseleave :: tween where
  "mouseleave = \<lparr>tween_x = 0, tween_y = 0, duration = 0.6, ease = ''power2.inOut''\<rparr>"

definition mousemove :: "dom_rect \<Rightarrow> mouse_event \<Rightarrow> tween" where
  "mousemove rect e =
     (let x = clientX e - rect_left rect - rect_width rect / 2;
          y = clientY e - rect_top rect - rect_height rect / 2
      in \<lparr>tween_x = x * 0.08, tween_y = y * 0.08, duration = 0.15, ease = ''power2.out''\<rparr>)"

text \<open>The button's centre, and the pointer's offset from it.\<close>

definition centre_x :: "dom_rect \<Rightarrow> real" where
  "centre_x rect = rect_left rect + rect_width rect / 2"

definition centre_y :: "dom_rect \<Rightarrow> real" where
  "centre_y rect = rect_top rect + rect_height rect / 2"

section \<open>The motion controller\<close>

subsection \<open>The effect bindings\<close>

text \<open>
  Each registration function is the list of calls it makes, in order, when nothing
  throws. \<open>mob\<close> is the script's constant \<open>isMobile\<close>. The functions of the two
  variants of the script differ in \<open>multiLayerParallax\<close> and
  \<open>scrollVelocityParallax\<close> only.
\<close>

definition parallaxElements :: "(string \<times> real \<times> bool) list" where
  "parallaxElements =
     [(''.cs_hero_content_wrapper'', 0.3, True),
      (''.cs_hero_info_box'', 0.2, False),
      (''.cs_hero_shape_2'', 0.15, False)]"

definition multiLayerParallax :: "bool \<Rightarrow> browser \<Rightarrow> call list" where
  "multiLayerParallax mob b =
     (if matches b ''.cs_hero'' = 0 then []
      else if mob then
        [GsapFrom (Element ''.cs_hero'' 0) [(''opacity'', 0.8), (''y'', 20), (''duration'', 1)]]
      else
        concat (map (\<lambda>(element, speed, mobile).
            if mob \<and> \<not> mobile then []
            else if matches b element = 0 then []
            else [GsapTo (Element element 0)
                    [(''yPercent'', - 30 * speed), (''scrub'', if mob then 3.5 else 2.5)]])
          parallaxElements)
        @ map (\<lambda>index. GsapTo (Element ''.cs_about_thumbnail img'' index)
                  [(''yPercent'', - 10 * (real index + 1)), (''scrub'', 3)])
            [0..<matches b ''.cs_about_thumbnail img''])"

definition multiLayerParallax_v2 :: "browser \<Rightarrow> call list" where
  "multiLayerParallax_v2 b =
     (if matches b ''.cs_hero'' = 0 then []
      else
        concat (map (\<lambda>(element, speed, mobile).
            if matches b element = 0 then []
            else [GsapTo (Element element 0) [(''yPercent'', - 30 * speed), (''scrub'', 2.5)]])
          parallaxElements)
        @ map (\<lambda>index. GsapTo (Element ''.cs_about_thumbnail img'' index)
                  [(''yPercent'', - 10 * (real index + 1)), (''scrub'', 3)])
            [0..<matches b ''.cs_about_thumbnail img''])"

definition imageFocusTransition :: "browser \<Rightarrow> call list" where
  "imageFocusTransition b =
     concat (map (\<lambda>i.
         [GsapSet (Element ''.cs_about_thumbnail_1 img, .cs_testimonial_thumbnail img'' i)
            [(''scale'', 1.02)],
          GsapTo (Element ''.cs_about_thumbnail_1 img, .cs_testimonial_thumbnail img'' i)
            [(''scale'', 1), (''duration'', 2), (''scrub'', 1.5)]])
       [0..<matches b ''.cs_about_thumbnail_1 img, .cs_testimonial_thumbnail img''])"

definition velocityElements :: "browser \<Rightarrow> call list" where
  "velocityElements b =
     concat (map (\<lambda>index.
         [GsapSet (Element ''.property-card'' index) [],
          GsapTimeline,
          GsapTo (Element ''.property-card'' index) [(''duration'', 0.6)]])
       [0..<matches b ''.property-card''])"

definition scrollVelocityParallax :: "bool \<Rightarrow> browser \<Rightarrow> call list" where
  "scrollVelocityParallax mob b =
     (if mob then [] else AddEventListener Window ''scroll'' # velocityElements b)"

definition scrollVelocityParallax_v2 :: "browser \<Rightarrow> call list" where
  "scrollVelocityParallax_v2 b = AddEventListener Window ''scroll'' # velocityElements b"

definition pinnedSectionMicroMovements :: "browser \<Rightarrow> call list" where
  "pinnedSectionMicroMovements b =
     concat (map (\<lambda>index.
         [GsapTo (Element ''.cs_card.cs_style_5'' index)
            [(''repeat'', - 1), (''delay'', real index * 0.3)],
          GsapFromTo (Element ''.cs_card.cs_style_5'' index)
            [(''y'', 30), (''opacity'', 0), (''scale'', 0.98)]
            [(''y'', 0), (''opacity'', 1), (''scale'', 1), (''duration'', 1.2), (''scrub'', 1.5)]])
       [0..<matches b ''.cs_card.cs_style_5''])"

definition subtlePerspectiveDepth :: "browser \<Rightarrow> call list" where
  "subtlePerspectiveDepth b =
     concat (map (\<lambda>i.
         [GsapSet (Element ''.specialites, .cs_testimonial'' i) [(''transformPerspective'', 1200)],
          GsapFromTo (Element ''.specialites, .cs_testimonial'' i)
            [(''z'', - 50), (''opacity'', 0.9)]
            [(''z'', 0), (''opacity'', 1), (''duration'', 1.5), (''scrub'', 2)]])
       [0..<matches b ''.specialites, .cs_testimonial''])
     @ map (\<lambda>index. GsapTo (Element ''.cs_info_item'' index)
               [(''z'', 25 * (real index + 1)), (''duration'', 2.5), (''scrub'', 2.5)])
         [0..<matches b ''.cs_info_item'']"

definition magneticHoverEffect :: "browser \<Rightarrow> call list" where
  "magneticHoverEffect b =
     concat (map (\<lambda>i.
         [AddEventListener (Element ''.cs_btn.cs_style_1'' i) ''mouseenter'',
          AddEventListener (Element ''.cs_btn.cs_style_1'' i) ''mouseleave'',
          AddEventListener (Element ''.cs_btn.cs_style_1'' i) ''mousemove''])
       [0..<matches b ''.cs_btn.cs_style_1''])"

definition optimizeTouchEvents :: "call list" where
  "optimizeTouchEvents =
     [AddEventListener Document ''touchstart'',
      AddEventListener Document ''touchstart'',
      AddEventListener Document ''touchmove'']"

subsection \<open>The registration pass and its guard\<close>

definition guard_message :: string where
  "guard_message = ''Error initializing GSAP animations:''"

text \<open>\<open>try { ... } catch (error) { console.error(...) }\<close>\<close>

fun try_catch :: "outcome \<Rightarrow> outcome" where
  "try_catch (Returned cs) = Returned cs"
| "try_catch (Threw cs) = Returned (cs @ [ConsoleError guard_message])"

definition initPremiumAnimations :: "browser \<Rightarrow> nat option \<Rightarrow> outcome" where
  "initPremiumAnimations b throw_at =
     (let mob = isMobile (userAgent b) in
      try_catch (perform throw_at
        ((if \<not> mob then
            multiLayerParallax mob b
            @ scrollVelocityParallax mob b
            @ pinnedSectionMicroMovements b
            @ subtlePerspectiveDepth b
            @ magneticHoverEffect b
          else [])
         @ imageFocusTransition b
         @ (if mob then optimizeTouchEvents else []))))"

definition initPremiumAnimations_v2 :: "browser \<Rightarrow> nat option \<Rightarrow> outcome" where
  "initPremiumAnimations_v2 b throw_at =
     try_catch (perform throw_at
       (multiLayerParallax_v2 b
        @ imageFocusTransition b
        @ scrollVelocityParallax_v2 b
        @ pinnedSectionMicroMovements b
        @ subtlePerspectiveDepth b
        @ magneticHoverEffect b))"

subsection \<open>The script body and the capability check\<close>

definition disabled_message :: string where
  "disabled_message = ''GSAP animations disabled - library not available or reduced motion preferred''"

text \<open>
  The top-level statements of the script. After the capability check they are not inside any
  \<open>try\<close>: an exception there leaves the script. \<open>console.log\<close> and the reads of
  \<open>matchMedia\<close> and \<open>navigator.userAgent\<close> are taken not to throw.
\<close>

definition premium_script :: "browser \<Rightarrow> nat option \<Rightarrow> outcome" where
  "premium_script b throw_at =
     (let mob = isMobile (userAgent b) in
      if \<not> gsapDefined b \<or> prefersReducedMotion b then Returned [ConsoleLog disabled_message]
      else perform throw_at
        ((if mob then [ClassListAdd DocumentElement ''mobile-device''] else [])
         @ (if scrollTriggerDefined b then
              [GsapRegisterPlugin, NormalizeScroll]
              @ (if mob then
                   [SaveStyles ''.cs_animate_on_scroll'',
                    MatchMedia [''(max-width: 767px)'', ''(min-width: 768px)'']]
                 else [])
              @ [ScrollTriggerConfig]
            else [])
         @ [AddEventListener Document ''DOMContentLoaded'',
            AddEventListener Window ''resize'']))"

definition premium_script_v2 :: "browser \<Rightarrow> nat option \<Rightarrow> outcome" where
  "premium_script_v2 b throw_at =
     (if \<not> gsapDefined b \<or> prefersReducedMotion b then Returned [ConsoleLog disabled_message]
      else perform throw_at
        ((if scrollTriggerDefined b then [GsapRegisterPlugin] else [])
         @ [AddEventListener Document ''DOMContentLoaded'',
            AddEventListener Window ''resize'']))"

text \<open>
  A page load: the script body runs, then the document dispatches \<open>DOMContentLoaded\<close>
  to the listener the script registered, if it registered one. The first component is
  the outcome of the script body, the second that of the registration pass.
\<close>

definition startup :: "browser \<Rightarrow> nat option \<Rightarrow> nat option \<Rightarrow> outcome \<times> outcome" where
  "startup b throw_at throw_at' =
     (let body = premium_script b throw_at in
      (body,
       if AddEventListener Document ''DOMContentLoaded'' \<in> set (calls_of body)
       then initPremiumAnimations b throw_at' else Returned []))"

definition startup_v2 :: "browser \<Rightarrow> nat option \<Rightarrow> nat option \<Rightarrow> outcome \<times> outcome" where
  "startup_v2 b throw_at throw_at' =
     (let body = premium_script_v2 b throw_at in
      (body,
       if AddEventListener Document ''DOMContentLoaded'' \<in> set (calls_of body)
       then initPremiumAnimations_v2 b throw_at' else Returned []))"


section \<open>Example inputs\<close>

text \<open>
  Two browsers on which the theorems below are instantiated: a desktop browser showing a
  page with a hero section, one parallax layer and one magnetic button, and a phone
  showing a page with a hero section and one image for the focus transition.
\<close>

definition example_desktop :: browser where
  "example_desktop =
     \<lparr>userAgent = ''Mozilla/5.0 (X11; Linux x86_64) Firefox/120.0'',
      prefersReducedMotion = False, gsapDefined = True, scrollTriggerDefined = True,
      readyState = ''loading'',
      matches = (\<lambda>sel. if sel \<in> {''.cs_hero'', ''.cs_hero_info_box'', ''.cs_btn.cs_style_1''}
                       then 1 else 0)\<rparr>"

definition example_phone :: browser where
  "example_phone =
     \<lparr>userAgent = ''Mozilla/5.0 (iPhone; CPU iPhone OS 16_0 like Mac OS X)'',
      prefersReducedMotion = False, gsapDefined = True, scrollTriggerDefined = True,
      readyState = ''loading'',
      matches = (\<lambda>sel. if sel \<in> {''.cs_hero'',
                                    ''.cs_about_thumbnail_1 img, .cs_testimonial_thumbnail img''}
                       then 1 else 0)\<rparr>"


section \<open>Properties of the velocity sampler\<close>

lemma foldl_plus_sum_list: "foldl (\<lambda>a b. a + b) a xs = a + sum_list (xs :: real list)"
  by (induction xs arbitrary: a) simp_all

lemma updateVelocity_onScroll: "updateVelocity y s = (onScroll y s)\<lparr>ticking := False\<rparr>"
  by (simp add: updateVelocity_def onScroll_def Let_def)

lemma most_recent_append:
  "most_recent n (most_recent n xs @ zs) = most_recent n (xs @ zs)"
proof -
  have "length xs + length zs - (length xs - n + n) + (length xs - n)
        = length xs + length zs - n"
    by arith
  then show ?thesis
    by (simp add: most_recent_def)
qed

lemma history_onScroll:
  "length (velocityHistory s) \<le> 5 \<Longrightarrow>
   velocityHistory (onScroll y s) = most_recent 5 (velocityHistory s @ [\<bar>y - lastScrollY s\<bar>])"
proof (cases "length (velocityHistory s) = 5")
  case True
  then obtain a rest where h: "velocityHistory s = a # rest" and "length rest = 4"
    by (cases "velocityHistory s") auto
  then show ?thesis
    by (simp add: onScroll_def Let_def most_recent_def)
next
  case False
  assume "length (velocityHistory s) \<le> 5"
  with False have "length (velocityHistory s) < 5"
    by simp
  then show ?thesis
    by (simp add: onScroll_def Let_def most_recent_def)
qed

lemma length_history_onScroll:
  "length (velocityHistory s) \<le> 5 \<Longrightarrow> length (velocityHistory (onScroll y s)) \<le> 5"
  by (simp add: history_onScroll most_recent_def)

lemma history_onScroll_nonempty: "velocityHistory (onScroll y s) \<noteq> []"
  by (cases "velocityHistory s") (simp_all add: onScroll_def Let_def)

lemma velocity_onScroll:
  "scrollVelocity (onScroll y s) = Num (mean (velocityHistory (onScroll y s)))"
  using history_onScroll_nonempty [of y s]
  by (simp add: onScroll_def Let_def js_div_def mean_def foldl_plus_sum_list)

lemma lastScrollY_onScroll: "lastScrollY (onScroll y s) = y"
  by (simp add: onScroll_def Let_def)

lemma onScroll_ticking: "onScroll y (s\<lparr>ticking := b\<rparr>) = (onScroll y s)\<lparr>ticking := b\<rparr>"
  by (simp add: onScroll_def Let_def)

lemma feed_snoc: "feed (ys @ [y]) s = onScroll y (feed ys s)"
  by (simp add: feed_def)

lemma feed_Cons: "feed (y # ys) s = feed ys (onScroll y s)"
  by (simp add: feed_def)

lemma feed_throttled_feed:
  "feed_throttled ys s = (feed ys s)\<lparr>ticking := (if ys = [] then ticking s else False)\<rparr>"
proof (induction ys rule: rev_induct)
  case Nil
  show ?case by (simp add: feed_def feed_throttled_def)
next
  case (snoc y ys)
  have "feed_throttled (ys @ [y]) s = updateVelocity y (feed_throttled ys s)"
    by (simp add: feed_throttled_def)
  then show ?case
    by (simp add: snoc updateVelocity_onScroll onScroll_ticking feed_snoc)
qed

lemma length_history_feed:
  "length (velocityHistory s) \<le> 5 \<Longrightarrow> length (velocityHistory (feed ys s)) \<le> 5"
  by (induction ys arbitrary: s) (simp_all add: feed_Cons length_history_onScroll, simp add: feed_def)

lemma history_feed:
  "length (velocityHistory s) \<le> 5 \<Longrightarrow>
   velocityHistory (feed ys s) = most_recent 5 (velocityHistory s @ deltas (lastScrollY s) ys)"
proof (induction ys arbitrary: s)
  case Nil
  then show ?case by (simp add: feed_def most_recent_def)
next
  case (Cons y ys)
  have "velocityHistory (feed (y # ys) s)
        = most_recent 5 (velocityHistory (onScroll y s) @ deltas y ys)"
    using Cons.IH [of "onScroll y s"] Cons.prems
    by (simp add: feed_Cons length_history_onScroll lastScrollY_onScroll)
  also have "\<dots> = most_recent 5 ((velocityHistory s @ [\<bar>y - lastScrollY s\<bar>]) @ deltas y ys)"
    using Cons.prems by (simp only: history_onScroll most_recent_append)
  finally show ?case by simp
qed

lemma velocity_feed:
  "ys \<noteq> [] \<Longrightarrow> scrollVelocity (feed ys s) = Num (mean (velocityHistory (feed ys s)))"
  by (cases ys rule: rev_cases) (simp_all add: feed_snoc velocity_onScroll)

lemma most_recent_filled:
  "n \<le> length ds \<Longrightarrow> most_recent n (h @ ds) = most_recent n ds"
  by (simp add: most_recent_def)

lemma mean_replicate: "0 < n \<Longrightarrow> mean (replicate n c) = c"
  by (simp add: mean_def sum_list_replicate)

lemma most_recent_replicate: "n \<le> m \<Longrightarrow> most_recent n (replicate m c) = replicate n c"
  by (simp add: most_recent_def)

lemma deltas_nonneg: "d \<in> set (deltas y0 ys) \<Longrightarrow> 0 \<le> d"
  by (induction ys arbitrary: y0) auto

lemma set_most_recent: "set (most_recent n xs) \<subseteq> set xs"
  by (simp add: most_recent_def set_drop_subset)

lemma mean_nonneg: "(\<And>d. d \<in> set xs \<Longrightarrow> 0 \<le> d) \<Longrightarrow> 0 \<le> mean xs"
  by (simp add: mean_def sum_list_nonneg)

lemma history_reachable_nonneg:
  "d \<in> set (velocityHistory (feed ys (initial_sampler S))) \<Longrightarrow> 0 \<le> d"
proof -
  assume "d \<in> set (velocityHistory (feed ys (initial_sampler S)))"
  then have "d \<in> set (most_recent 5 (deltas S ys))"
    by (simp add: history_feed initial_sampler_def)
  then show ?thesis
    using set_most_recent deltas_nonneg by fastforce
qed

text \<open>From binding time on, the history never has more than 5 entries.\<close>

lemma history_bound_reachable:
  "length (velocityHistory (feed ys (initial_sampler S))) \<le> 5"
  by (rule length_history_feed) (simp add: initial_sampler_def)

lemma feed_initial_throttled:
  "sampler.truncate (feed ys (initial_throttled S)) = feed ys (initial_sampler S)"
proof (induction ys rule: rev_induct)
  case Nil
  show ?case
    by (simp add: feed_def initial_throttled_def initial_sampler_def sampler.truncate_def)
next
  case (snoc y ys)
  have "sampler.truncate (onScroll y t) = onScroll y (sampler.truncate t)" for t :: throttled_sampler
    by (simp add: onScroll_def Let_def sampler.truncate_def)
  then show ?case
    by (simp add: feed_snoc snoc)
qed

subsection \<open>The claims about the sampler\<close>

text \<open>
  Claim C1. Whatever scroll positions are sampled, the history of retained deltas never
  has more than 5 entries, a push onto a full history evicts the oldest entry first, and
  after every sample the published velocity is the arithmetic mean of the retained
  window, which holds the most recent absolute deltas. Both variants of the sampler: the
  plain scroll listener (\<open>onScroll\<close>) and the frame callback (\<open>updateVelocity\<close>).
  The bound on the starting history holds at binding time, where the history is empty,
  and is kept by every sample.
\<close>

theorem velocity_window_fifo_mean:
  fixes s :: "'a sampler_scheme" and t :: "'b throttled_sampler_scheme"
  assumes "length (velocityHistory s) \<le> 5" and "length (velocityHistory t) \<le> 5"
    and "ys \<noteq> []"
  shows "length (velocityHistory (feed ys s)) \<le> 5
    \<and> velocityHistory (feed ys s)
        = most_recent 5 (velocityHistory s @ deltas (lastScrollY s) ys)
    \<and> scrollVelocity (feed ys s)
        = Num (mean (most_recent 5 (velocityHistory s @ deltas (lastScrollY s) ys)))
    \<and> (length (velocityHistory s) = 5 \<longrightarrow>
         velocityHistory (onScroll y s) = tl (velocityHistory s) @ [\<bar>y - lastScrollY s\<bar>])
    \<and> length (velocityHistory (feed_throttled ys t)) \<le> 5
    \<and> velocityHistory (feed_throttled ys t)
        = most_recent 5 (velocityHistory t @ deltas (lastScrollY t) ys)
    \<and> scrollVelocity (feed_throttled ys t)
        = Num (mean (most_recent 5 (velocityHistory t @ deltas (lastScrollY t) ys)))
    \<and> (length (velocityHistory t) = 5 \<longrightarrow>
         velocityHistory (updateVelocity y t) = tl (velocityHistory t) @ [\<bar>y - lastScrollY t\<bar>])"
proof -
  have evict: "length (velocityHistory u) = 5 \<Longrightarrow>
      velocityHistory (onScroll y u) = tl (velocityHistory u) @ [\<bar>y - lastScrollY u\<bar>]"
    for u :: "'c sampler_scheme"
    by (cases "velocityHistory u") (simp_all add: onScroll_def Let_def)
  have run: "length (velocityHistory (feed ys u)) \<le> 5
      \<and> velocityHistory (feed ys u)
          = most_recent 5 (velocityHistory u @ deltas (lastScrollY u) ys)
      \<and> scrollVelocity (feed ys u)
          = Num (mean (most_recent 5 (velocityHistory u @ deltas (lastScrollY u) ys)))"
    if "length (velocityHistory u) \<le> 5" for u :: "'c sampler_scheme"
  proof -
    have "velocityHistory (feed ys u)
          = most_recent 5 (velocityHistory u @ deltas (lastScrollY u) ys)"
      using that by (rule history_feed)
    moreover have "length (velocityHistory (feed ys u)) \<le> 5"
      using that by (rule length_history_feed)
    moreover have "scrollVelocity (feed ys u) = Num (mean (velocityHistory (feed ys u)))"
      using assms(3) by (rule velocity_feed)
    ultimately show ?thesis
      by simp
  qed
  have sel: "velocityHistory (feed_throttled ys t) = velocityHistory (feed ys t)"
    "scrollVelocity (feed_throttled ys t) = scrollVelocity (feed ys t)"
    "velocityHistory (updateVelocity y t) = velocityHistory (onScroll y t)"
    by (simp_all add: feed_throttled_feed updateVelocity_onScroll)
  show ?thesis
    unfolding sel
    using run [OF assms(1)] run [OF assms(2)] evict [of s] evict [of t]
    by blast
qed

theorem velocity_window_fifo_mean_witness:
  "length (velocityHistory (feed [10, 30]
      \<lparr>lastScrollY = 0, scrollVelocity = Num 3, velocityHistory = [1, 2, 3, 4, 5]\<rparr>)) \<le> 5
   \<and> velocityHistory (feed [10, 30]
      \<lparr>lastScrollY = 0, scrollVelocity = Num 3, velocityHistory = [1, 2, 3, 4, 5]\<rparr>)
      = [3, 4, 5, 10, 20]
   \<and> scrollVelocity (feed [10, 30]
      \<lparr>lastScrollY = 0, scrollVelocity = Num 3, velocityHistory = [1, 2, 3, 4, 5]\<rparr>)
      = Num (42 / 5)
   \<and> velocityHistory (onScroll 7
      \<lparr>lastScrollY = 0, scrollVelocity = Num 3, velocityHistory = [1, 2, 3, 4, 5]\<rparr>)
      = [2, 3, 4, 5, 7]
   \<and> velocityHistory (feed_throttled [10, 30]
      \<lparr>lastScrollY = 0, scrollVelocity = Num 3, velocityHistory = [1, 2, 3, 4, 5],
        ticking = True\<rparr>)
      = [3, 4, 5, 10, 20]
   \<and> scrollVelocity (feed_throttled [10, 30]
      \<lparr>lastScrollY = 0, scrollVelocity = Num 3, velocityHistory = [1, 2, 3, 4, 5],
        ticking = True\<rparr>)
      = Num (42 / 5)
   \<and> velocityHistory (updateVelocity 7
      \<lparr>lastScrollY = 0, scrollVelocity = Num 3, velocityHistory = [1, 2, 3, 4, 5],
        ticking = True\<rparr>)
      = [2, 3, 4, 5, 7]"
  using velocity_window_fifo_mean [where
      s = "\<lparr>lastScrollY = 0, scrollVelocity = Num 3, velocityHistory = [1, 2, 3, 4, 5]\<rparr>"
      and t = "\<lparr>lastScrollY = 0, scrollVelocity = Num 3, velocityHistory = [1, 2, 3, 4, 5],
        ticking = True\<rparr>"
      and ys = "[10, 30]" and y = 7]
  by (simp add: most_recent_def mean_def)

text \<open>
  Claim C7. Whatever the history held before, once five or more consecutive samples
  with delta 10 have been taken (so after the fifth and after the sixth of six), the
  window holds only those deltas and the published velocity is exactly 10.
\<close>

theorem steady_deltas_velocity_ten:
  fixes s :: "'a sampler_scheme" and t :: "'b throttled_sampler_scheme"
  assumes "length (velocityHistory s) \<le> 5" and "length (velocityHistory t) \<le> 5"
    and "5 \<le> length ys"
    and "deltas (lastScrollY s) ys = replicate (length ys) 10"
    and "deltas (lastScrollY t) ys = replicate (length ys) 10"
  shows "scrollVelocity (feed ys s) = Num 10
    \<and> velocityHistory (feed ys s) = replicate 5 10
    \<and> scrollVelocity (feed_throttled ys t) = Num 10
    \<and> velocityHistory (feed_throttled ys t) = replicate 5 10"
proof -
  from assms(3) have ne: "ys \<noteq> []"
    by auto
  have run: "velocityHistory (feed ys u) = replicate 5 10 \<and> scrollVelocity (feed ys u) = Num 10"
    if "length (velocityHistory u) \<le> 5" "deltas (lastScrollY u) ys = replicate (length ys) 10"
    for u :: "'c sampler_scheme"
  proof -
    have "velocityHistory (feed ys u) = most_recent 5 (replicate (length ys) 10)"
      using that assms(3) by (simp add: history_feed most_recent_filled)
    then have h: "velocityHistory (feed ys u) = replicate 5 10"
      using assms(3) by (simp add: most_recent_replicate)
    have "mean (replicate 5 (10::real)) = 10"
      by (rule mean_replicate) simp
    with h velocity_feed [OF ne, of u] show ?thesis
      by simp
  qed
  show ?thesis
    using run [OF assms(1) assms(4)] run [OF assms(2) assms(5)] ne
    by (simp add: feed_throttled_feed)
qed

theorem steady_deltas_velocity_ten_witness:
  "scrollVelocity (feed [110, 120, 110, 100, 110, 120]
      \<lparr>lastScrollY = 100, scrollVelocity = Num 250, velocityHistory = [400, 7, 343]\<rparr>) = Num 10
   \<and> scrollVelocity (feed_throttled [110, 120, 110, 100, 110, 120]
      \<lparr>lastScrollY = 100, scrollVelocity = Num 250, velocityHistory = [400, 7, 343],
        ticking = True\<rparr>) = Num 10"
  using steady_deltas_velocity_ten [where
      s = "\<lparr>lastScrollY = 100, scrollVelocity = Num 250, velocityHistory = [400, 7, 343]\<rparr>"
      and t = "\<lparr>lastScrollY = 100, scrollVelocity = Num 250, velocityHistory = [400, 7, 343],
        ticking = True\<rparr>"
      and ys = "[110, 120, 110, 100, 110, 120]"]
  by (simp add: numeral_eq_Suc)

text \<open>
  Claim C8. At binding time \<open>lastScrollY\<close> is the current scroll offset \<open>S\<close>, so a
  first sample taken while the scroll position is still \<open>S\<close> records the delta 0 and
  publishes the velocity 0.
\<close>

theorem first_sample_delta_zero:
  "lastScrollY (initial_sampler S) = S
   \<and> velocityHistory (onScroll S (initial_sampler S)) = [0]
   \<and> scrollVelocity (onScroll S (initial_sampler S)) = Num 0
   \<and> lastScrollY (initial_throttled S) = S
   \<and> velocityHistory (updateVelocity S (initial_throttled S)) = [0]
   \<and> scrollVelocity (updateVelocity S (initial_throttled S)) = Num 0"
  by (simp add: initial_sampler_def initial_throttled_def onScroll_def updateVelocity_def
      Let_def js_div_def)

text \<open>
  Claim C10. The division of a sample comes after the push: the history it divides by
  is never empty, its length is never 0, and the published velocity is a finite number
  (neither \<open>NaN\<close> nor an infinity); in every run from binding time it is
  non-negative, each retained delta being an absolute value.
\<close>

theorem velocity_division_defined:
  fixes s :: "'a sampler_scheme" and t :: "'b throttled_sampler_scheme"
  shows "velocityHistory (onScroll y s) \<noteq> []
   \<and> real (length (velocityHistory (onScroll y s))) \<noteq> 0
   \<and> scrollVelocity (onScroll y s)
       = js_div (foldl (\<lambda>a b. a + b) 0 (velocityHistory (onScroll y s)))
           (real (length (velocityHistory (onScroll y s))))
   \<and> (\<exists>v. scrollVelocity (onScroll y s) = Num v)
   \<and> (\<exists>v. scrollVelocity (feed (ys @ [y]) (initial_sampler S)) = Num v \<and> 0 \<le> v)
   \<and> velocityHistory (updateVelocity y t) \<noteq> []
   \<and> real (length (velocityHistory (updateVelocity y t))) \<noteq> 0
   \<and> scrollVelocity (updateVelocity y t)
       = js_div (foldl (\<lambda>a b. a + b) 0 (velocityHistory (updateVelocity y t)))
           (real (length (velocityHistory (updateVelocity y t))))
   \<and> (\<exists>v. scrollVelocity (updateVelocity y t) = Num v)
   \<and> (\<exists>v. scrollVelocity (feed_throttled (ys @ [y]) (initial_throttled S)) = Num v \<and> 0 \<le> v)"
proof -
  have step: "velocityHistory (onScroll y u) \<noteq> []
      \<and> real (length (velocityHistory (onScroll y u))) \<noteq> 0
      \<and> scrollVelocity (onScroll y u)
          = js_div (foldl (\<lambda>a b. a + b) 0 (velocityHistory (onScroll y u)))
              (real (length (velocityHistory (onScroll y u))))
      \<and> (\<exists>v. scrollVelocity (onScroll y u) = Num v)"
    for u :: "'c sampler_scheme"
    using history_onScroll_nonempty [of y u] velocity_onScroll [of y u]
    by (simp add: onScroll_def Let_def)
  have "0 \<le> mean (velocityHistory (feed (ys @ [y]) (initial_sampler S)))"
    by (rule mean_nonneg) (rule history_reachable_nonneg)
  then have reach: "\<exists>v. scrollVelocity (feed (ys @ [y]) (initial_sampler S)) = Num v \<and> 0 \<le> v"
    using velocity_feed [of "ys @ [y]" "initial_sampler S"] by simp
  have "scrollVelocity (feed_throttled (ys @ [y]) (initial_throttled S))
        = scrollVelocity (sampler.truncate (feed (ys @ [y]) (initial_throttled S)))"
    by (simp add: feed_throttled_feed sampler.truncate_def)
  with reach have reach_t:
    "\<exists>v. scrollVelocity (feed_throttled (ys @ [y]) (initial_throttled S)) = Num v \<and> 0 \<le> v"
    by (simp add: feed_initial_throttled)
  have sel: "velocityHistory (updateVelocity y t) = velocityHistory (onScroll y t)"
    "scrollVelocity (updateVelocity y t) = scrollVelocity (onScroll y t)"
    by (simp_all add: updateVelocity_onScroll)
  show ?thesis
    unfolding sel using step [of s] step [of t] reach reach_t
    by blast
qed

section \<open>Properties of throttling and frame coalescing\<close>

lemma consistent_initial: "consistent (initial_page S)"
  by (simp add: consistent_def initial_page_def)

lemma updateVelocity_page_fields:
  fixes s :: page
  shows "clock (updateVelocity y s) = clock s"
    and "inThrottle (updateVelocity y s) = inThrottle s"
    and "timeouts (updateVelocity y s) = timeouts s"
    and "frameRequests (updateVelocity y s) = frameRequests s"
  by (simp_all add: updateVelocity_def Let_def)

lemma samples_page_fields:
  fixes s :: page
  shows "clock ((updateVelocity y ^^ n) s) = clock s"
    and "inThrottle ((updateVelocity y ^^ n) s) = inThrottle s"
    and "timeouts ((updateVelocity y ^^ n) s) = timeouts s"
    and "frameRequests ((updateVelocity y ^^ n) s) = frameRequests s"
  by (induction n) (simp_all add: updateVelocity_page_fields)

lemma consistent_step: "consistent s \<Longrightarrow> step e s = Some s' \<Longrightarrow> consistent s'"
proof (cases e)
  case (Scroll t y)
  assume "consistent s" "step e s = Some s'"
  with Scroll show ?thesis
    by (auto simp: consistent_def throttle_def handleScroll_def Let_def split: if_splits)
next
  case (Timeout t)
  assume "consistent s" "step e s = Some s'"
  with Timeout show ?thesis
    by (auto simp: consistent_def split: if_splits list.splits)
next
  case (Frame t)
  assume "consistent s" "step e s = Some s'"
  with Frame show ?thesis
    by (auto simp: consistent_def animationFrame_def updateVelocity_def Let_def split: if_splits)
qed

lemma consistent_run: "consistent s \<Longrightarrow> run es s = Some s' \<Longrightarrow> consistent s'"
  by (induction es arbitrary: s) (auto split: option.splits dest: consistent_step)

lemma clock_step: "step e s = Some s' \<Longrightarrow> clock s \<le> clock s'"
  by (cases e) (auto simp: throttle_def handleScroll_def Let_def animationFrame_def
      samples_page_fields split: if_splits list.splits)

lemma clock_run: "run es s = Some s' \<Longrightarrow> clock s \<le> clock s'"
proof (induction es arbitrary: s)
  case Nil
  then show ?case by simp
next
  case (Cons e es)
  then obtain u where "step e s = Some u" and "run es u = Some s'"
    by (auto split: option.splits)
  with Cons.IH [of u] clock_step [of e s u] show ?case
    by simp
qed

text \<open>An event that is not a scroll asks for no frame.\<close>

lemma quiet_step:
  "\<not> is_scroll e \<Longrightarrow> step e s = Some s' \<Longrightarrow> frameRequests s' = frameRequests s"
  by (cases e) (auto simp: animationFrame_def samples_page_fields split: if_splits list.splits)

lemma quiet_run:
  "\<forall>e \<in> set es. \<not> is_scroll e \<Longrightarrow> run es s = Some s' \<Longrightarrow>
   frameRequests s' = frameRequests s"
proof (induction es arbitrary: s)
  case Nil
  then show ?case by simp
next
  case (Cons e es)
  then obtain u where u: "step e s = Some u" "run es u = Some s'"
    by (auto split: option.splits)
  with Cons show ?case
    using quiet_step [of e s u] by simp
qed

text \<open>While its timeout is not due, an open throttle window stays open.\<close>

lemma window_step:
  assumes "inThrottle s" and "timeouts s = [due]" and "step e s = Some s'"
    and "clock s' < due"
  shows "inThrottle s' \<and> timeouts s' = [due] \<and> frameRequests s' = frameRequests s"
  using assms
  by (cases e) (auto simp: throttle_def animationFrame_def samples_page_fields
      split: if_splits list.splits)

lemma window_run:
  assumes "inThrottle s" and "timeouts s = [due]" and "run es s = Some s'"
    and "clock s' < due"
  shows "inThrottle s' \<and> timeouts s' = [due] \<and> frameRequests s' = frameRequests s"
  using assms
proof (induction es arbitrary: s)
  case Nil
  then show ?case by simp
next
  case (Cons e es)
  then obtain u where u: "step e s = Some u" "run es u = Some s'"
    by (auto split: option.splits)
  from clock_run [OF u(2)] Cons.prems(4) have "clock u < due"
    by simp
  with window_step [OF Cons.prems(1,2) u(1)]
  have "inThrottle u \<and> timeouts u = [due] \<and> frameRequests u = frameRequests s"
    by simp
  with Cons.IH [of u] u(2) Cons.prems(4) show ?case
    by simp
qed

lemma scroll_requests:
  assumes "step (Scroll t y) s = Some s'"
  shows "frameRequests s' = (if \<not> inThrottle s \<and> \<not> ticking s then frameRequests s + 1
                             else frameRequests s)"
    and "inThrottle s'"
    and "\<not> inThrottle s \<Longrightarrow> timeouts s' = timeouts s @ [t + 50]"
    and "clock s' = t"
  using assms
  by (auto simp: throttle_def handleScroll_def Let_def split: if_splits)

lemma run_append:
  "run (es @ fs) s = (case run es s of None \<Rightarrow> None | Some u \<Rightarrow> run fs u)"
  by (induction es arbitrary: s) (auto split: option.splits)

lemma two_scrolls:
  assumes c: "consistent s"
    and r: "run (Scroll t y1 # mid @ [Scroll t2 y2]) s = Some s'"
    and q: "\<forall>e \<in> set mid. \<not> is_scroll e"
    and w: "t2 < t + 50"
  shows "frameRequests s' =
           (if inThrottle s then frameRequests s' else if ticking s then frameRequests s else frameRequests s + 1)"
    and "frameRequests s' \<le> frameRequests s + 1"
proof -
  from r obtain s1 s2 where s1: "step (Scroll t y1) s = Some s1"
    and s2: "run mid s1 = Some s2" and s': "step (Scroll t2 y2) s2 = Some s'"
    by (auto simp: run_append split: option.splits)
  have both: "(\<not> inThrottle s \<longrightarrow> frameRequests s' = (if ticking s then frameRequests s else frameRequests s + 1))
      \<and> frameRequests s' \<le> frameRequests s + 1"
  proof (cases "inThrottle s")
    case True
    with scroll_requests(1) [OF s1] have "frameRequests s1 = frameRequests s"
      by simp
    with quiet_run [OF q s2] have "frameRequests s2 = frameRequests s"
      by simp
    with scroll_requests(1) [OF s'] True show ?thesis
      by simp
  next
    case False
    with c have "timeouts s = []"
      by (simp add: consistent_def)
    with False scroll_requests [OF s1] have open1: "inThrottle s1" "timeouts s1 = [t + 50]"
      by simp_all
    from s' have "clock s2 \<le> t2"
      by (auto split: if_splits)
    with w have "clock s2 < t + 50"
      by simp
    from window_run [OF open1 s2 this]
    have "inThrottle s2" "frameRequests s2 = frameRequests s1"
      by simp_all
    with scroll_requests(1) [OF s'] have "frameRequests s' = frameRequests s1"
      by simp
    with scroll_requests(1) [OF s1] False show ?thesis
      by simp
  qed
  from both show "frameRequests s' \<le> frameRequests s + 1"
    by simp
  from both show "frameRequests s' =
           (if inThrottle s then frameRequests s' else if ticking s then frameRequests s else frameRequests s + 1)"
    by simp
qed

lemma frame_samples:
  "consistent s \<Longrightarrow> step (Frame t) s = Some s' \<Longrightarrow>
   samples s' = samples s + (if ticking s then 1 else 0) \<and> frameCallbacks s' = 0"
  by (auto simp: consistent_def animationFrame_def split: if_splits)

text \<open>
  Claim C2. The sampler is rate-limited by two mechanisms in a row. The throttle lets
  the first scroll event of a 50 ms window through at once and drops the later ones;
  \<open>ticking\<close> lets at most one frame callback be pending. So take any state the page
  can reach, a scroll event at the time \<open>t\<close>, any events but scrolls after it (frames,
  timeouts), and a second scroll event less than 50 ms after the first, in particular
  10 ms after it: the two events together ask for at most one animation frame, and for
  exactly one, asked for by the first event at once, when the window was closed and no
  frame was pending. A frame never holds more than one callback, so a frame runs
  \<open>updateVelocity\<close> at most once.
\<close>

theorem throttle_and_frame_coalescing:
  assumes reach: "run pre (initial_page S) = Some s"
    and two: "run (Scroll t y1 # mid @ [Scroll (t + gap) y2]) s = Some s'"
    and quiet: "\<forall>e \<in> set mid. \<not> is_scroll e"
    and gap: "gap < 50"
  shows "frameRequests s' \<le> frameRequests s + 1
    \<and> (\<not> inThrottle s \<and> \<not> ticking s \<longrightarrow>
         frameRequests s' = frameRequests s + 1
         \<and> (\<exists>s1. step (Scroll t y1) s = Some s1 \<and> frameRequests s1 = frameRequests s + 1))
    \<and> frameCallbacks s \<le> 1
    \<and> frameCallbacks s' \<le> 1
    \<and> (\<forall>t' u. step (Frame t') s' = Some u \<longrightarrow> samples u \<le> samples s' + 1)"
proof -
  have c: "consistent s"
    using consistent_initial reach by (rule consistent_run)
  then have c': "consistent s'"
    using two by (rule consistent_run)
  from gap have w: "t + gap < t + 50"
    by simp
  note ts = two_scrolls [OF c two quiet w]
  from two obtain s1 where s1: "step (Scroll t y1) s = Some s1"
    by (auto split: option.splits)
  have lead: "\<not> inThrottle s \<and> \<not> ticking s \<longrightarrow>
      frameRequests s' = frameRequests s + 1
      \<and> (\<exists>s1. step (Scroll t y1) s = Some s1 \<and> frameRequests s1 = frameRequests s + 1)"
    using ts(1) s1 scroll_requests(1) [OF s1] by auto
  have one: "frameCallbacks u \<le> 1" if "consistent u" for u
    using that by (simp add: consistent_def)
  have frame: "\<forall>t' u. step (Frame t') s' = Some u \<longrightarrow> samples u \<le> samples s' + 1"
    using frame_samples [OF c'] by auto
  from ts(2) lead one [OF c] one [OF c'] frame show ?thesis
    by blast
qed

theorem throttle_and_frame_coalescing_witness:
  "run [] (initial_page 0) = Some (initial_page 0)
   \<and> run (Scroll 100 40 # [Frame 105] @ [Scroll (100 + 10) 80]) (initial_page 0)
       = Some \<lparr>lastScrollY = 40, scrollVelocity = Num 40, velocityHistory = [40],
           ticking = False, windowScrollY = 80, inThrottle = True, timeouts = [150],
           frameCallbacks = 0, clock = 110, frameRequests = 1, samples = 1\<rparr>
   \<and> \<not> is_scroll (Frame 105)
   \<and> (10::nat) < 50
   \<and> frameRequests \<lparr>lastScrollY = 40, scrollVelocity = Num 40, velocityHistory = [40],
           ticking = False, windowScrollY = 80, inThrottle = True, timeouts = [150],
           frameCallbacks = 0, clock = 110, frameRequests = 1, samples = 1\<rparr>
       = frameRequests (initial_page 0) + 1"
proof -
  have r0: "run [] (initial_page 0) = Some (initial_page 0)"
    by simp
  have r: "run (Scroll 100 40 # [Frame 105] @ [Scroll (100 + 10) 80]) (initial_page 0)
       = Some \<lparr>lastScrollY = 40, scrollVelocity = Num 40, velocityHistory = [40],
           ticking = False, windowScrollY = 80, inThrottle = True, timeouts = [150],
           frameCallbacks = 0, clock = 110, frameRequests = 1, samples = 1\<rparr>"
    by (simp add: initial_page_def throttle_def handleScroll_def animationFrame_def
        updateVelocity_def js_div_def Let_def)
  have q: "\<forall>e \<in> set [Frame 105]. \<not> is_scroll e"
    by simp
  have g: "(10::nat) < 50"
    by simp
  have idle: "\<not> inThrottle (initial_page 0) \<and> \<not> ticking (initial_page 0)"
    by (simp add: initial_page_def)
  from throttle_and_frame_coalescing [OF r0 r q g] idle r0 r g show ?thesis
    by simp
qed

section \<open>Properties of pointer magnetism\<close>

text \<open>
  Claim C6. On pointer-enter and on pointer-move the tween's target displacement is
  0.08 times the pointer's offset from the button's centre, in each axis, so the offset
  (20, -10) gives (1.6, -0.8); on pointer-leave the target is (0, 0); and the move
  handler's duration (0.15) is strictly shorter than the enter handler's (0.4).
\<close>

theorem magnetic_displacement:
  "tween_x (mouseenter rect e) = 0.08 * (clientX e - centre_x rect)
   \<and> tween_y (mouseenter rect e) = 0.08 * (clientY e - centre_y rect)
   \<and> tween_x (mousemove rect e) = 0.08 * (clientX e - centre_x rect)
   \<and> tween_y (mousemove rect e) = 0.08 * (clientY e - centre_y rect)
   \<and> (clientX e - centre_x rect = 20 \<and> clientY e - centre_y rect = - 10 \<longrightarrow>
        tween_x (mouseenter rect e) = 1.6 \<and> tween_y (mouseenter rect e) = - 0.8
        \<and> tween_x (mousemove rect e) = 1.6 \<and> tween_y (mousemove rect e) = - 0.8)
   \<and> tween_x mouseleave = 0 \<and> tween_y mouseleave = 0
   \<and> duration (mousemove rect e) < duration (mouseenter rect e)"
proof -
  have ox: "clientX e - rect_left rect - rect_width rect / 2 = clientX e - centre_x rect"
    and oy: "clientY e - rect_top rect - rect_height rect / 2 = clientY e - centre_y rect"
    by (simp_all add: centre_x_def centre_y_def)
  have enter: "tween_x (mouseenter rect e) = 0.08 * (clientX e - centre_x rect)"
    "tween_y (mouseenter rect e) = 0.08 * (clientY e - centre_y rect)"
    by (simp_all add: mouseenter_def Let_def ox oy)
  have move: "tween_x (mousemove rect e) = 0.08 * (clientX e - centre_x rect)"
    "tween_y (mousemove rect e) = 0.08 * (clientY e - centre_y rect)"
    by (simp_all add: mousemove_def Let_def ox oy)
  have leave: "tween_x mouseleave = 0" "tween_y mouseleave = 0"
    by (simp_all add: mouseleave_def)
  have faster: "duration (mousemove rect e) < duration (mouseenter rect e)"
    by (simp add: mousemove_def mouseenter_def Let_def)
  show ?thesis
    unfolding enter move leave using faster by simp
qed

theorem magnetic_displacement_witness:
  "clientX \<lparr>clientX = 160, clientY = 60\<rparr>
      - centre_x \<lparr>rect_left = 100, rect_top = 50, rect_width = 80, rect_height = 40\<rparr> = 20
   \<and> clientY \<lparr>clientX = 160, clientY = 60\<rparr>
      - centre_y \<lparr>rect_left = 100, rect_top = 50, rect_width = 80, rect_height = 40\<rparr> = - 10
   \<and> tween_x (mouseenter \<lparr>rect_left = 100, rect_top = 50, rect_width = 80, rect_height = 40\<rparr>
        \<lparr>clientX = 160, clientY = 60\<rparr>) = 1.6
   \<and> tween_y (mouseenter \<lparr>rect_left = 100, rect_top = 50, rect_width = 80, rect_height = 40\<rparr>
        \<lparr>clientX = 160, clientY = 60\<rparr>) = - 0.8
   \<and> tween_x (mousemove \<lparr>rect_left = 100, rect_top = 50, rect_width = 80, rect_height = 40\<rparr>
        \<lparr>clientX = 160, clientY = 60\<rparr>) = 1.6
   \<and> tween_y (mousemove \<lparr>rect_left = 100, rect_top = 50, rect_width = 80, rect_height = 40\<rparr>
        \<lparr>clientX = 160, clientY = 60\<rparr>) = - 0.8"
  using magnetic_displacement [where
      rect = "\<lparr>rect_left = 100, rect_top = 50, rect_width = 80, rect_height = 40\<rparr>"
      and e = "\<lparr>clientX = 160, clientY = 60\<rparr>"]
  by (simp add: centre_x_def centre_y_def)

section \<open>Properties of the mobile override script\<close>

text \<open>
  Claim C9. On a runtime that the user-agent test classifies as mobile, the override
  script (at once, or at \<open>DOMContentLoaded\<close> when the document is still loading)
  appends a style sheet whose universal rule forces transition, animation and transform
  to none, opacity to 1, a flat transform-style, a visible backface and no perspective,
  sets \<open>touch-action\<close> to manipulation and registers the touch-start listener; that
  listener stops the propagation of a touch that starts inside a \<open>.scrollable\<close>
  element and of no other. On every other runtime the script does nothing. The
  reduced-motion preference has no influence on it.
\<close>

theorem mobile_override:
  "(isMobile (userAgent b) \<longrightarrow>
      mobile_optimize_page b =
        (if readyState b = ''loading'' then [AddEventListener Document ''DOMContentLoaded'']
         else []) @
        [AppendStyle override_css,
         SetStyle DocumentElement ''touchAction'' ''manipulation'',
         AddEventListener Document ''touchstart'',
         ClassListAdd DocumentElement ''no-hover''])
   \<and> (\<not> isMobile (userAgent b) \<longrightarrow> mobile_optimize_page b = [])
   \<and> \<lparr>selectors = [''*'', ''*:before'', ''*:after''],
       declarations =
         [(''transition'', ''none'', True), (''animation'', ''none'', True),
          (''transform'', ''none'', True), (''opacity'', ''1'', True),
          (''transform-style'', ''flat'', True), (''backface-visibility'', ''visible'', True),
          (''perspective'', ''none'', True)]\<rparr> \<in> set override_css
   \<and> scrollable_touchstart True = [StopPropagation]
   \<and> scrollable_touchstart False = []
   \<and> mobile_optimize_page (b\<lparr>prefersReducedMotion := p\<rparr>) = mobile_optimize_page b"
  by (simp add: mobile_optimize_page_def mobile_optimize_def mobile_optimize_ready_def
      disableAnimations_def optimizeScrolling_def disableHoverEffects_def override_css_def
      scrollable_touchstart_def)

theorem mobile_override_witness:
  "isMobile (userAgent \<lparr>userAgent = ''Mozilla/5.0 (iPhone; CPU iPhone OS 16_0 like Mac OS X)'',
        prefersReducedMotion = False, gsapDefined = True, scrollTriggerDefined = True,
        readyState = ''loading'', matches = (\<lambda>sel. 0)\<rparr>)
   \<and> mobile_optimize_page \<lparr>userAgent = ''Mozilla/5.0 (iPhone; CPU iPhone OS 16_0 like Mac OS X)'',
        prefersReducedMotion = False, gsapDefined = True, scrollTriggerDefined = True,
        readyState = ''loading'', matches = (\<lambda>sel. 0)\<rparr>
      = [AddEventListener Document ''DOMContentLoaded'', AppendStyle override_css,
         SetStyle DocumentElement ''touchAction'' ''manipulation'',
         AddEventListener Document ''touchstart'',
         ClassListAdd DocumentElement ''no-hover'']
   \<and> \<not> isMobile (userAgent \<lparr>userAgent = ''Mozilla/5.0 (X11; Linux x86_64) Firefox/120.0'',
        prefersReducedMotion = True, gsapDefined = True, scrollTriggerDefined = True,
        readyState = ''complete'', matches = (\<lambda>sel. 0)\<rparr>)
   \<and> mobile_optimize_page \<lparr>userAgent = ''Mozilla/5.0 (X11; Linux x86_64) Firefox/120.0'',
        prefersReducedMotion = True, gsapDefined = True, scrollTriggerDefined = True,
        readyState = ''complete'', matches = (\<lambda>sel. 0)\<rparr> = []"
proof -
  have m: "isMobile ''Mozilla/5.0 (iPhone; CPU iPhone OS 16_0 like Mac OS X)''"
    by (simp add: isMobile_def mobile_tokens_def lower_def)
  have d: "\<not> isMobile ''Mozilla/5.0 (X11; Linux x86_64) Firefox/120.0''"
    by (simp add: isMobile_def mobile_tokens_def lower_def)
  show ?thesis
    using m d
      mobile_override [where b = "\<lparr>userAgent = ''Mozilla/5.0 (iPhone; CPU iPhone OS 16_0 like Mac OS X)'',
        prefersReducedMotion = False, gsapDefined = True, scrollTriggerDefined = True,
        readyState = ''loading'', matches = (\<lambda>sel. 0)\<rparr>"]
      mobile_override [where b = "\<lparr>userAgent = ''Mozilla/5.0 (X11; Linux x86_64) Firefox/120.0'',
        prefersReducedMotion = True, gsapDefined = True, scrollTriggerDefined = True,
        readyState = ''complete'', matches = (\<lambda>sel. 0)\<rparr>"]
    by simp
qed

section \<open>Properties of the motion controller\<close>

lemma try_catch_returns: "\<exists>cs. try_catch out = Returned cs"
  by (cases out) simp_all

lemma try_catch_perform_split:
  "try_catch (perform (Some (length pre)) (pre @ post)) = Returned (pre @ [ConsoleError guard_message])"
  by simp

lemma initPremiumAnimations_returns: "\<exists>cs. initPremiumAnimations b t = Returned cs"
  by (simp add: initPremiumAnimations_def Let_def try_catch_returns)

lemma initPremiumAnimations_v2_returns: "\<exists>cs. initPremiumAnimations_v2 b t = Returned cs"
  by (simp add: initPremiumAnimations_v2_def try_catch_returns)

lemma initPremiumAnimations_plan:
  "initPremiumAnimations b t = try_catch (perform t (calls_of (initPremiumAnimations b None)))"
  by (simp only: initPremiumAnimations_def Let_def perform.simps(1) try_catch.simps(1)
      calls_of.simps(1))

lemma initPremiumAnimations_v2_plan:
  "initPremiumAnimations_v2 b t
   = try_catch (perform t (calls_of (initPremiumAnimations_v2 b None)))"
  by (simp only: initPremiumAnimations_v2_def perform.simps(1) try_catch.simps(1)
      calls_of.simps(1))

text \<open>
  Claim C5. An exception thrown during the registration pass is caught by the one guard
  around the pass and logged: wherever it strikes, the calls made before it (\<open>pre\<close>)
  stay registered, the calls that would have followed (\<open>post\<close>) are not made, one
  error message is logged, and the pass returns normally. Both variants of the pass.
\<close>

theorem registration_guard:
  assumes "calls_of (initPremiumAnimations b None) = pre @ post"
    and "calls_of (initPremiumAnimations_v2 b None) = pre' @ post'"
  shows "initPremiumAnimations b (Some (length pre))
           = Returned (pre @ [ConsoleError guard_message])
    \<and> initPremiumAnimations_v2 b (Some (length pre'))
           = Returned (pre' @ [ConsoleError guard_message])
    \<and> (\<exists>cs. initPremiumAnimations b throw_at = Returned cs)
    \<and> (\<exists>cs. initPremiumAnimations_v2 b throw_at = Returned cs)"
proof -
  have one: "initPremiumAnimations b (Some (length pre))
      = Returned (pre @ [ConsoleError guard_message])"
    by (subst initPremiumAnimations_plan) (simp only: assms(1) try_catch_perform_split)
  have two: "initPremiumAnimations_v2 b (Some (length pre'))
      = Returned (pre' @ [ConsoleError guard_message])"
    by (subst initPremiumAnimations_v2_plan) (simp only: assms(2) try_catch_perform_split)
  from one two initPremiumAnimations_returns initPremiumAnimations_v2_returns
  show ?thesis
    by simp
qed

text \<open>
  Claim C3. When \<open>gsap\<close> is undefined or reduced motion is preferred, the script body
  logs one message and returns: it makes no other call, registers no listener for
  \<open>DOMContentLoaded\<close>, so the registration pass never runs and no effect binding is
  registered, and nothing is thrown, wherever the environment would have made a later
  call fail. Both variants of the script.
\<close>

theorem disabled_registers_nothing:
  assumes "\<not> gsapDefined b \<or> prefersReducedMotion b"
  shows "startup b throw_at throw_at' = (Returned [ConsoleLog disabled_message], Returned [])
    \<and> startup_v2 b throw_at throw_at' = (Returned [ConsoleLog disabled_message], Returned [])"
  using assms
  by (auto simp: startup_def startup_v2_def premium_script_def premium_script_v2_def Let_def)

text \<open>
  The registration pass on a mobile and on a desktop device, when nothing throws: the
  focus transition and the touch listeners on the one, the six bindings on the other.
  On a mobile device no call of the pass is a \<open>gsap.from\<close>.
\<close>

lemma mobile_pass:
  "isMobile (userAgent b) \<Longrightarrow>
   initPremiumAnimations b None = Returned (imageFocusTransition b @ optimizeTouchEvents)"
  by (simp add: initPremiumAnimations_def)

lemma desktop_pass:
  "\<not> isMobile (userAgent b) \<Longrightarrow>
   initPremiumAnimations b None =
     Returned (multiLayerParallax False b @ scrollVelocityParallax False b
       @ pinnedSectionMicroMovements b @ subtlePerspectiveDepth b @ magneticHoverEffect b
       @ imageFocusTransition b)"
  by (simp add: initPremiumAnimations_def)

lemma mobile_pass_no_fade_in:
  "isMobile (userAgent b) \<Longrightarrow> GsapFrom tg vs \<notin> set (calls_of (initPremiumAnimations b throw_at))"
proof -
  assume m: "isMobile (userAgent b)"
  have "GsapFrom tg vs \<notin> set (imageFocusTransition b @ optimizeTouchEvents)"
    by (auto simp: imageFocusTransition_def optimizeTouchEvents_def)
  then have "GsapFrom tg vs \<notin> set (calls_of (try_catch (perform throw_at (imageFocusTransition b @ optimizeTouchEvents))))"
    by (cases throw_at) (auto simp: guard_message_def dest: in_set_takeD)
  with m show ?thesis
    by (simp add: initPremiumAnimations_def del: perform.simps)
qed


lemma example_desktop_not_mobile: "\<not> isMobile (userAgent example_desktop)"
  by (simp add: example_desktop_def isMobile_def mobile_tokens_def lower_def)

lemma example_phone_mobile: "isMobile (userAgent example_phone)"
  by (simp add: example_phone_def isMobile_def mobile_tokens_def lower_def)

lemma example_desktop_pass:
  "initPremiumAnimations example_desktop None =
     Returned
       [GsapTo (Element ''.cs_hero_info_box'' 0) [(''yPercent'', - 6), (''scrub'', 2.5)],
        AddEventListener Window ''scroll'',
        AddEventListener (Element ''.cs_btn.cs_style_1'' 0) ''mouseenter'',
        AddEventListener (Element ''.cs_btn.cs_style_1'' 0) ''mouseleave'',
        AddEventListener (Element ''.cs_btn.cs_style_1'' 0) ''mousemove'']"
  using example_desktop_not_mobile
  by (simp add: desktop_pass)
    (simp add: example_desktop_def multiLayerParallax_def parallaxElements_def
      scrollVelocityParallax_def velocityElements_def pinnedSectionMicroMovements_def
      subtlePerspectiveDepth_def magneticHoverEffect_def imageFocusTransition_def)

lemma example_desktop_pass_v2:
  "initPremiumAnimations_v2 example_desktop None =
     Returned
       [GsapTo (Element ''.cs_hero_info_box'' 0) [(''yPercent'', - 6), (''scrub'', 2.5)],
        AddEventListener Window ''scroll'',
        AddEventListener (Element ''.cs_btn.cs_style_1'' 0) ''mouseenter'',
        AddEventListener (Element ''.cs_btn.cs_style_1'' 0) ''mouseleave'',
        AddEventListener (Element ''.cs_btn.cs_style_1'' 0) ''mousemove'']"
  by (simp add: initPremiumAnimations_v2_def example_desktop_def multiLayerParallax_v2_def
      parallaxElements_def scrollVelocityParallax_v2_def velocityElements_def
      pinnedSectionMicroMovements_def subtlePerspectiveDepth_def magneticHoverEffect_def
      imageFocusTransition_def)

theorem registration_guard_witness:
  "calls_of (initPremiumAnimations example_desktop None) =
     [GsapTo (Element ''.cs_hero_info_box'' 0) [(''yPercent'', - 6), (''scrub'', 2.5)],
      AddEventListener Window ''scroll'',
      AddEventListener (Element ''.cs_btn.cs_style_1'' 0) ''mouseenter'']
     @ [AddEventListener (Element ''.cs_btn.cs_style_1'' 0) ''mouseleave'',
        AddEventListener (Element ''.cs_btn.cs_style_1'' 0) ''mousemove'']
   \<and> calls_of (initPremiumAnimations_v2 example_desktop None) =
     [GsapTo (Element ''.cs_hero_info_box'' 0) [(''yPercent'', - 6), (''scrub'', 2.5)],
      AddEventListener Window ''scroll'']
     @ [AddEventListener (Element ''.cs_btn.cs_style_1'' 0) ''mouseenter'',
        AddEventListener (Element ''.cs_btn.cs_style_1'' 0) ''mouseleave'',
        AddEventListener (Element ''.cs_btn.cs_style_1'' 0) ''mousemove'']
   \<and> initPremiumAnimations example_desktop (Some 3) =
     Returned
       [GsapTo (Element ''.cs_hero_info_box'' 0) [(''yPercent'', - 6), (''scrub'', 2.5)],
        AddEventListener Window ''scroll'',
        AddEventListener (Element ''.cs_btn.cs_style_1'' 0) ''mouseenter'',
        ConsoleError ''Error initializing GSAP animations:'']
   \<and> initPremiumAnimations_v2 example_desktop (Some 2) =
     Returned
       [GsapTo (Element ''.cs_hero_info_box'' 0) [(''yPercent'', - 6), (''scrub'', 2.5)],
        AddEventListener Window ''scroll'',
        ConsoleError ''Error initializing GSAP animations:'']"
proof -
  have p: "calls_of (initPremiumAnimations example_desktop None) =
     [GsapTo (Element ''.cs_hero_info_box'' 0) [(''yPercent'', - 6), (''scrub'', 2.5)],
      AddEventListener Window ''scroll'',
      AddEventListener (Element ''.cs_btn.cs_style_1'' 0) ''mouseenter'']
     @ [AddEventListener (Element ''.cs_btn.cs_style_1'' 0) ''mouseleave'',
        AddEventListener (Element ''.cs_btn.cs_style_1'' 0) ''mousemove'']"
    by (simp add: example_desktop_pass)
  have p': "calls_of (initPremiumAnimations_v2 example_desktop None) =
     [GsapTo (Element ''.cs_hero_info_box'' 0) [(''yPercent'', - 6), (''scrub'', 2.5)],
      AddEventListener Window ''scroll'']
     @ [AddEventListener (Element ''.cs_btn.cs_style_1'' 0) ''mouseenter'',
        AddEventListener (Element ''.cs_btn.cs_style_1'' 0) ''mouseleave'',
        AddEventListener (Element ''.cs_btn.cs_style_1'' 0) ''mousemove'']"
    by (simp add: example_desktop_pass_v2)
  from registration_guard [OF p p', of None] p p' show ?thesis
    by (simp add: guard_message_def eval_nat_numeral)
qed

theorem disabled_registers_nothing_witness:
  "\<not> gsapDefined (example_desktop\<lparr>gsapDefined := False\<rparr>)
   \<and> startup (example_desktop\<lparr>gsapDefined := False\<rparr>) (Some 0) (Some 0)
       = (Returned [ConsoleLog disabled_message], Returned [])
   \<and> startup_v2 (example_desktop\<lparr>gsapDefined := False\<rparr>) (Some 0) (Some 0)
       = (Returned [ConsoleLog disabled_message], Returned [])
   \<and> prefersReducedMotion (example_phone\<lparr>prefersReducedMotion := True\<rparr>)
   \<and> startup (example_phone\<lparr>prefersReducedMotion := True\<rparr>) None None
       = (Returned [ConsoleLog disabled_message], Returned [])
   \<and> startup_v2 (example_phone\<lparr>prefersReducedMotion := True\<rparr>) None None
       = (Returned [ConsoleLog disabled_message], Returned [])"
  using disabled_registers_nothing [of "example_desktop\<lparr>gsapDefined := False\<rparr>" "Some 0" "Some 0"]
    disabled_registers_nothing [of "example_phone\<lparr>prefersReducedMotion := True\<rparr>" None None]
  by simp

text \<open>
  Claim C4, evaluated on a phone whose page has a hero section. \<open>multiLayerParallax\<close>
  holds a branch for mobile devices that registers a simple fade-in of the hero
  section, but \<open>initPremiumAnimations\<close> calls \<open>multiLayerParallax\<close> on desktop
  devices only: on the phone the pass registers the focus transition and the touch
  listeners, and no fade-in.
\<close>

theorem mobile_fade_in_not_registered:
  "isMobile (userAgent example_phone)
   \<and> matches example_phone ''.cs_hero'' = 1
   \<and> multiLayerParallax True example_phone =
       [GsapFrom (Element ''.cs_hero'' 0) [(''opacity'', 0.8), (''y'', 20), (''duration'', 1)]]
   \<and> initPremiumAnimations example_phone None =
       Returned
         [GsapSet (Element ''.cs_about_thumbnail_1 img, .cs_testimonial_thumbnail img'' 0)
            [(''scale'', 1.02)],
          GsapTo (Element ''.cs_about_thumbnail_1 img, .cs_testimonial_thumbnail img'' 0)
            [(''scale'', 1), (''duration'', 2), (''scrub'', 1.5)],
          AddEventListener Document ''touchstart'',
          AddEventListener Document ''touchstart'',
          AddEventListener Document ''touchmove'']"
proof -
  have hero: "matches example_phone ''.cs_hero'' = 1"
    by (simp add: example_phone_def)
  then have dead: "multiLayerParallax True example_phone =
      [GsapFrom (Element ''.cs_hero'' 0) [(''opacity'', 0.8), (''y'', 20), (''duration'', 1)]]"
    by (simp add: multiLayerParallax_def)
  have "imageFocusTransition example_phone =
      [GsapSet (Element ''.cs_about_thumbnail_1 img, .cs_testimonial_thumbnail img'' 0)
         [(''scale'', 1.02)],
       GsapTo (Element ''.cs_about_thumbnail_1 img, .cs_testimonial_thumbnail img'' 0)
         [(''scale'', 1), (''duration'', 2), (''scrub'', 1.5)]]"
    by (simp add: imageFocusTransition_def example_phone_def)
  with mobile_pass [OF example_phone_mobile] hero dead example_phone_mobile show ?thesis
    by (simp add: optimizeTouchEvents_def)
qed

end
